theory Spec2Isabelle
  imports Complex_Main "HOL-Library.Multiset"
begin

section \<open>CTC beam search: a shallow embedding of ctc\_beam\_search.ts\<close>

subsection \<open>Numbers\<close>

text \<open>
  A JavaScript number is modelled as a real number or \<open>None\<close>. \<open>Some x\<close> is a finite
  number. \<open>None\<close> stands for \<open>NaN\<close> and for \<open>undefined\<close>, which the program never
  tells apart: both fail every \<open>===\<close> and \<open>>\<close> test against a number, and both turn
  every sum into \<open>NaN\<close>. Rounding is not modelled, and neither are \<open>Infinity\<close> and
  \<open>-Infinity\<close>: the finite numbers are the reals, the rows of the input matrix are lists
  of finite numbers, and a property stated for numbers is stated for finite numbers.
\<close>

type_synonym num = "real option"

definition num_add :: "num \<Rightarrow> num \<Rightarrow> num" where
  "num_add x y = (case x of None \<Rightarrow> None | Some a \<Rightarrow> (case y of None \<Rightarrow> None | Some b \<Rightarrow> Some (a + b)))"

definition num_gt :: "num \<Rightarrow> num \<Rightarrow> bool" where
  "num_gt x y = (case x of None \<Rightarrow> False | Some a \<Rightarrow> (case y of None \<Rightarrow> False | Some b \<Rightarrow> a > b))"

text \<open>\<open>row[i]\<close>: reading past either end of a JavaScript array gives \<open>undefined\<close>.\<close>

definition row_at :: "real list \<Rightarrow> int \<Rightarrow> num" where
  "row_at row i = (if 0 \<le> i \<and> i < int (length row) then Some (row ! nat i) else None)"

subsection \<open>Vocabulary\<close>

text \<open>
  The two tables are JavaScript objects used as dictionaries: maps here, since the code
  only looks keys up and counts them, and never reads their order. The constructor's
  first argument is the list \<open>Object.entries(charToIndex)\<close>. Both tables start as \<open>{}\<close>.
  The assignment \<open>this._charToIndex[k] = v\<close> with the key \<open>__proto__\<close> runs the setter
  inherited from \<open>Object.prototype\<close>, which ignores a number and stores nothing; every
  other key becomes a property. The keys of \<open>_indexToChar\<close> are numbers.
\<close>

record Vocabulary =
  charToIndex :: "string \<rightharpoonup> int"
  indexToChar :: "int \<rightharpoonup> string"
  blankIndex :: int

definition Vocabulary_new :: "(string \<times> int) list \<Rightarrow> int \<Rightarrow> Vocabulary" where
  "Vocabulary_new entries blank =
     foldl (\<lambda>this (k, v).
              this\<lparr>charToIndex := (if k = ''__proto__'' then charToIndex this
                                     else (charToIndex this)(k \<mapsto> v)),
                   indexToChar := (indexToChar this)(v \<mapsto> k)\<rparr>)
           \<lparr>charToIndex = Map.empty, indexToChar = Map.empty, blankIndex = blank\<rparr> entries"

subsection \<open>logSumExp\<close>

definition logSumExp :: "num \<Rightarrow> num \<Rightarrow> num" where
  "logSumExp log1 log2 =
     (if log1 = Some 0 then log2
      else if log2 = Some 0 then log1
      else (case (log1, log2) of
              (Some a, Some b) \<Rightarrow>
                Some (if a > b then a + ln (1 + exp (b - a)) else b + ln (1 + exp (a - b)))
            | _ \<Rightarrow> None))"

subsection \<open>BeamEntry\<close>

text \<open>
  The fields \<open>_last\<close>, \<open>_string\<close> and \<open>_parent\<close> are \<open>last_idx\<close>, \<open>string_memo\<close> and
  \<open>parent_ref\<close>. A parent is held by value: an entry gets its children one time step
  after the last write to its own fields, so the value is the object the children see.
\<close>

datatype BeamEntry = BeamEntry
  (seq: "int list") (pTotal: num) (pBlank: num) (pNonBlank: num)
  (last_idx: int) (string_memo: "string option") (parent_ref: "BeamEntry option")

record BeamList =
  size_w :: int
  beams :: "string \<rightharpoonup> nat"
  beamList :: "BeamEntry list"

record CTCBeamSearch =
  vocabulary :: Vocabulary
  vocabSize :: nat
  ctc_blankIndex :: int

definition calculateLast :: "int list \<Rightarrow> int" where
  "calculateLast s = (if length s > 0 then s ! (length s - 1) else -1)"

text \<open>
  The constructor: \<open>if (last)\<close> is false for a missing argument and for \<open>0\<close>, and then
  \<open>_last\<close> is computed from the sequence.
\<close>

definition BeamEntry_new :: "int list \<Rightarrow> int option \<Rightarrow> BeamEntry" where
  "BeamEntry_new s last_arg =
     BeamEntry s (Some 0) (Some 0) (Some 0)
       (case last_arg of
          None \<Rightarrow> calculateLast s
        | Some l \<Rightarrow> if l \<noteq> 0 then l else calculateLast s)
       None None"

text \<open>
  \<open>convertToStr\<close> returns the string and the entry with the string memoised.
  \<open>join('')\<close> writes an index that the vocabulary does not know as the empty string.
\<close>

definition convertToStr :: "BeamEntry \<Rightarrow> Vocabulary \<Rightarrow> string \<times> BeamEntry" where
  "convertToStr this vocab =
     (case string_memo this of
        Some s \<Rightarrow> (s, this)
      | None \<Rightarrow>
          (let s = concat (map (\<lambda>index. case indexToChar vocab index of
                                           Some c \<Rightarrow> c | None \<Rightarrow> []) (seq this))
           in (s, BeamEntry (seq this) (pTotal this) (pBlank this) (pNonBlank this)
                    (last_idx this) (Some s) (parent_ref this))))"

definition copy :: "BeamEntry \<Rightarrow> real list \<Rightarrow> num \<Rightarrow> BeamEntry option" where
  "copy this row blank =
     (if last_idx this = -1 then None
      else
        (let rev = BeamEntry_new (seq this) (Some (last_idx this));
             rev_pBlank =
               (if (case parent_ref this of None \<Rightarrow> False
                    | Some p \<Rightarrow> last_idx p = last_idx this)
                then num_add (pTotal this) blank
                else num_add (pNonBlank this) blank);
             rev_pNonBlank = num_add (pNonBlank this) (row_at row (last_idx this));
             rev_pTotal = logSumExp rev_pNonBlank rev_pBlank
         in Some (BeamEntry (seq rev) rev_pTotal rev_pBlank rev_pNonBlank
                    (last_idx rev) (string_memo rev) (Some this))))"

definition extend :: "BeamEntry \<Rightarrow> int \<Rightarrow> num \<Rightarrow> num \<Rightarrow> BeamEntry option" where
  "extend this index prob blank =
     (if last_idx this = -1 \<and> index = 0 then
        (let rev = BeamEntry_new [] (Some (-1))
         in Some (BeamEntry (seq rev) (num_add (pTotal this) (logSumExp prob blank))
                    (pBlank rev) (Some 0) (last_idx rev) (string_memo rev) (Some this)))
      else if index = last_idx this then
        (if pBlank this = Some 0 then None
         else
           (let rev = BeamEntry_new (seq this @ [index]) (Some index)
            in Some (BeamEntry (seq rev) (num_add (pBlank this) prob)
                       (pBlank rev) (num_add (pBlank this) prob)
                       (last_idx rev) (string_memo rev) (Some this))))
      else
        (let rev = BeamEntry_new (seq this @ [index]) (Some index)
         in Some (BeamEntry (seq rev) (num_add (pTotal this) prob)
                    (pBlank rev) (num_add (pTotal this) prob)
                    (last_idx rev) (string_memo rev) (Some this))))"

subsection \<open>BeamList\<close>

text \<open>
  \<open>_beams\<close> and \<open>_beamList\<close> hold the same objects: \<open>beams\<close> maps a label to the
  position of its entry in \<open>beamList\<close>, so that the in-place merge is seen through both.
  \<open>_beams\<close> starts as \<open>{}\<close>, whose lookups also find the properties inherited from
  \<open>Object.prototype\<close>, all of them truthy: for such a label \<open>add\<close> takes the merge branch
  and writes to the inherited object, and the list does not change, although the doc
  comment of \<open>add\<close> has every label not yet in the list added.
\<close>

definition BeamList_new :: "int \<Rightarrow> BeamList" where
  "BeamList_new w = \<lparr>size_w = w, beams = Map.empty, beamList = []\<rparr>"

definition Object_prototype_keys :: "string list" where
  "Object_prototype_keys =
     [''constructor'', ''__defineGetter__'', ''__defineSetter__'', ''hasOwnProperty'',
      ''__lookupGetter__'', ''__lookupSetter__'', ''isPrototypeOf'',
      ''propertyIsEnumerable'', ''toString'', ''valueOf'', ''__proto__'',
      ''toLocaleString'']"

definition merge_into :: "BeamEntry \<Rightarrow> BeamEntry \<Rightarrow> BeamEntry" where
  "merge_into existing beam =
     BeamEntry (seq existing)
       (logSumExp (pTotal beam) (pTotal existing))
       (logSumExp (pBlank beam) (pBlank existing))
       (logSumExp (pNonBlank beam) (pNonBlank existing))
       (last_idx existing) (string_memo existing) (parent_ref existing)"

definition add :: "BeamList \<Rightarrow> BeamEntry option \<Rightarrow> Vocabulary \<Rightarrow> BeamList" where
  "add this beam vocab =
     (case beam of
        None \<Rightarrow> this
      | Some b \<Rightarrow>
          (let (label, b') = convertToStr b vocab
           in case beams this label of
                Some i \<Rightarrow>
                  this\<lparr>beamList := (beamList this)[i := merge_into (beamList this ! i) b']\<rparr>
              | None \<Rightarrow>
                  if label \<in> set Object_prototype_keys then this
                  else this\<lparr>beams := (beams this)(label \<mapsto> length (beamList this)),
                            beamList := beamList this @ [b']\<rparr>))"

text \<open>
  \<open>Array.prototype.sort\<close> is stable. The comparator \<open>b.pTotal - a.pTotal\<close> puts \<open>b\<close>
  before \<open>a\<close> when it is positive. The model is the stable insertion sort with this
  comparator: for totals that are finite numbers it is the order of the code. With a
  \<open>NaN\<close> total the comparator is not a consistent order, ECMAScript leaves the result to
  the engine, and the order of the model is not the engine's; no property below reads the
  order of a list that holds such a total.
\<close>

fun insert_by_pTotal :: "BeamEntry \<Rightarrow> BeamEntry list \<Rightarrow> BeamEntry list" where
  "insert_by_pTotal a [] = [a]"
| "insert_by_pTotal a (b # bs) =
     (if num_gt (pTotal b) (pTotal a) then b # insert_by_pTotal a bs else a # b # bs)"

definition sort_by_pTotal :: "BeamEntry list \<Rightarrow> BeamEntry list" where
  "sort_by_pTotal xs = foldr insert_by_pTotal xs []"

datatype error = RangeError

text \<open>
  \<open>rev.length = n\<close> truncates the array or pads it with holes (\<open>None\<close>), and throws a
  \<open>RangeError\<close> unless \<open>n\<close> is an integer from 0 to \<open>2^32 - 1\<close>. The beam width is an
  integer here; a width with a fraction, which throws too, is not modelled.
\<close>

definition set_length :: "'a option list \<Rightarrow> int \<Rightarrow> error + 'a option list" where
  "set_length xs n =
     (if 0 \<le> n \<and> n \<le> 4294967295
      then Inr (take (nat n) xs @ replicate (nat n - length xs) None)
      else Inl RangeError)"

definition sort_beams :: "BeamList \<Rightarrow> error + BeamEntry option list" where
  "sort_beams this = set_length (map Some (sort_by_pTotal (beamList this))) (size_w this)"

subsection \<open>CTCBeamSearch\<close>

definition CTCBeamSearch_new :: "Vocabulary \<Rightarrow> CTCBeamSearch" where
  "CTCBeamSearch_new v =
     \<lparr>vocabulary = v, vocabSize = card (dom (charToIndex v)), ctc_blankIndex = blankIndex v\<rparr>"

text \<open>The successors of one beam against one row, in the order they are added.\<close>

definition successors :: "CTCBeamSearch \<Rightarrow> real list \<Rightarrow> BeamEntry \<Rightarrow> BeamEntry option list" where
  "successors this row beam =
     copy beam row (row_at row (ctc_blankIndex this))
     # map (\<lambda>cIndex. extend beam (int cIndex) (row_at row (int cIndex))
                        (row_at row (ctc_blankIndex this)))
           [0 ..< length row - 1]"

text \<open>\<open>forEach\<close> skips the holes of the beam array.\<close>

definition expand :: "CTCBeamSearch \<Rightarrow> real list \<Rightarrow> BeamList \<Rightarrow> BeamEntry option \<Rightarrow> BeamList" where
  "expand this row allCandidates slot =
     (case slot of
        None \<Rightarrow> allCandidates
      | Some beam \<Rightarrow> foldl (\<lambda>l s. add l s (vocabulary this)) allCandidates (successors this row beam))"

text \<open>
  One time step: a fresh pool of the given width, every beam expanded into it, then the
  sort. \<open>search\<close> runs the steps over the rows, starting from the root; an exception
  thrown by a step ends the search.
\<close>

definition step :: "CTCBeamSearch \<Rightarrow> int \<Rightarrow> BeamEntry option list \<Rightarrow> real list
                    \<Rightarrow> error + BeamEntry option list" where
  "step this width bs row = sort_beams (foldl (expand this row) (BeamList_new width) bs)"

fun search_rows :: "CTCBeamSearch \<Rightarrow> int \<Rightarrow> BeamEntry option list \<Rightarrow> real list list
                    \<Rightarrow> error + BeamEntry option list" where
  "search_rows this width bs [] = Inr bs"
| "search_rows this width bs (row # rows) =
     (case step this width bs row of
        Inl e \<Rightarrow> Inl e
      | Inr bs' \<Rightarrow> search_rows this width bs' rows)"

definition search :: "CTCBeamSearch \<Rightarrow> real list list \<Rightarrow> int \<Rightarrow> error + BeamEntry option list" where
  "search this logProbs width = search_rows this width [Some (BeamEntry_new [] None)] logProbs"


section \<open>Notions used by the properties\<close>

subsection \<open>Observations\<close>

definition num_ge :: "num \<Rightarrow> num \<Rightarrow> bool" where
  "num_ge x y = (case x of None \<Rightarrow> False | Some a \<Rightarrow> (case y of None \<Rightarrow> False | Some b \<Rightarrow> a \<ge> b))"

text \<open>The label under which \<open>add\<close> files an entry.\<close>

definition label_of :: "Vocabulary \<Rightarrow> BeamEntry \<Rightarrow> string" where
  "label_of v b = fst (convertToStr b v)"

text \<open>The distinct labels among the candidates handed to \<open>add\<close> (nothings are skipped).\<close>

definition labels_seen :: "Vocabulary \<Rightarrow> BeamEntry option list \<Rightarrow> string set" where
  "labels_seen v cands = {lab. \<exists>b. Some b \<in> set cands \<and> lab = label_of v b}"

text \<open>A pool after a sequence of \<open>add\<close> calls.\<close>

definition feed :: "BeamList \<Rightarrow> BeamEntry option list \<Rightarrow> Vocabulary \<Rightarrow> BeamList" where
  "feed l cands v = foldl (\<lambda>l s. add l s v) l cands"

text \<open>\<open>results[0].convertToStr(vocabulary)\<close>, the decoded string of the first result.\<close>

definition top1_label :: "CTCBeamSearch \<Rightarrow> error + BeamEntry option list \<Rightarrow> string option" where
  "top1_label this r =
     (case r of
        Inr (Some e # _) \<Rightarrow> Some (fst (convertToStr e (vocabulary this)))
      | _ \<Rightarrow> None)"

subsection \<open>Invariants\<close>

text \<open>\<open>_last\<close> is the final element of \<open>seq\<close>, or \<open>-1\<close> for the empty sequence.\<close>

definition last_ok :: "BeamEntry \<Rightarrow> bool" where
  "last_ok e = (last_idx e = (if seq e = [] then -1 else last (seq e)))"

definition total_is_logsum :: "BeamEntry \<Rightarrow> bool" where
  "total_is_logsum e = (pTotal e = logSumExp (pBlank e) (pNonBlank e))"

text \<open>
  A log-sum of two recorded masses (neither argument is the sentinel) that comes out as
  exactly \<open>0\<close>, the value of the sentinel: the masses add up to probability one.
\<close>

definition spurious_zero :: "num \<Rightarrow> num \<Rightarrow> bool" where
  "spurious_zero x y = (x \<noteq> Some 0 \<and> y \<noteq> Some 0 \<and> logSumExp x y = Some 0)"

text \<open>The probability mass that a log-probability stands for, the sentinel standing for none.\<close>

definition mass :: "real \<Rightarrow> real" where
  "mass x = (if x = 0 then 0 else exp x)"

definition of_mass :: "real \<Rightarrow> real" where
  "of_mass m = (if m = 0 then 0 else ln m)"

text \<open>The labels of a pool's members, in list order, as the dictionary \<open>_beams\<close> knows them.\<close>

definition pool_labels :: "BeamList \<Rightarrow> string list \<Rightarrow> bool" where
  "pool_labels l labs =
     (distinct labs \<and> length labs = length (beamList l) \<and> dom (beams l) = set labs \<and>
      (\<forall>i < length labs. beams l (labs ! i) = Some i) \<and>
      set labs \<inter> set Object_prototype_keys = {})"

text \<open>A property of entries that the pool and the expansion of a beam keep.\<close>

definition kept_by_pool :: "(BeamEntry \<Rightarrow> bool) \<Rightarrow> Vocabulary \<Rightarrow> bool" where
  "kept_by_pool P v =
     ((\<forall>e b. P e \<longrightarrow> P b \<longrightarrow> P (merge_into e b)) \<and>
      (\<forall>e. P e \<longrightarrow> P (snd (convertToStr e v))))"

definition kept_by_successors :: "(BeamEntry \<Rightarrow> bool) \<Rightarrow> CTCBeamSearch \<Rightarrow> real list \<Rightarrow> bool" where
  "kept_by_successors P this row =
     (\<forall>e r. P e \<longrightarrow> Some r \<in> set (successors this row e) \<longrightarrow> P r)"




text \<open>An entry whose sequence holds indices from \<open>0\<close> to \<open>n - 1\<close> only.\<close>

definition indices_below :: "nat \<Rightarrow> BeamEntry \<Rightarrow> bool" where
  "indices_below n e = (\<forall>i \<in> set (seq e). 0 \<le> i \<and> i < int n)"

subsection \<open>Example inputs\<close>

text \<open>Three-symbol alphabets: \<open>a = 0, b = 1\<close>, blank last; \<open>b = 0, a = 1\<close>, blank last;
  and \<open>a = 1, b = 2\<close> with the blank first.\<close>

definition abc :: CTCBeamSearch where
  "abc = CTCBeamSearch_new (Vocabulary_new [(''a'', 0), (''b'', 1)] 2)"

definition bac :: CTCBeamSearch where
  "bac = CTCBeamSearch_new (Vocabulary_new [(''b'', 0), (''a'', 1)] 2)"

definition blank_first :: CTCBeamSearch where
  "blank_first = CTCBeamSearch_new (Vocabulary_new [(''a'', 1), (''b'', 2)] 0)"



text \<open>The same path over \<open>bac\<close> with probability 0.98, not one, for each symbol of the path.\<close>

definition path98_bac :: "real list list" where
  "path98_bac =
     [[ln (1 / 100), ln (98 / 100), ln (1 / 100)],
      [ln (1 / 100), ln (1 / 100), ln (98 / 100)],
      [ln (1 / 100), ln (98 / 100), ln (1 / 100)],
      [ln (1 / 100), ln (1 / 100), ln (98 / 100)],
      [ln (98 / 100), ln (1 / 100), ln (1 / 100)],
      [ln (1 / 100), ln (1 / 100), ln (98 / 100)]]"

section \<open>Properties\<close>

subsection \<open>Arithmetic of the number model\<close>

lemma num_add_zero: "num_add (Some 0) x = x" "num_add x (Some 0) = x"
  by (cases x; simp add: num_add_def)+

lemma logSumExp_commute: "logSumExp a b = logSumExp b a"
  by (cases a; cases b) (auto simp: logSumExp_def)

lemma logSumExp_zero_left: "logSumExp (Some 0) x = x"
  by (simp add: logSumExp_def)

lemma logSumExp_zero_right: "logSumExp x (Some 0) = x"
  by (simp add: logSumExp_def)

lemma logSumExp_None: "logSumExp None x = None" "logSumExp x None = None"
  by (cases x; simp add: logSumExp_def)+

lemma ln_add_exp: "(a::real) + ln (1 + exp (b - a)) = ln (exp a + exp b)"
proof -
  have "0 < 1 + exp (b - a)" by (simp add: add_pos_pos)
  then have "ln (exp a * (1 + exp (b - a))) = ln (exp a) + ln (1 + exp (b - a))"
    by (simp add: ln_mult_pos)
  moreover have "exp a * (1 + exp (b - a)) = exp a + exp b"
    by (simp add: algebra_simps exp_add [symmetric])
  ultimately show ?thesis by simp
qed

text \<open>In terms of masses, \<open>logSumExp\<close> adds: the sentinel contributes nothing.\<close>

lemma logSumExp_of_mass:
  "logSumExp (Some a) (Some b) = Some (of_mass (mass a + mass b))"
proof -
  have "exp a + exp b \<noteq> 0" using exp_gt_zero[of a] exp_gt_zero[of b] by linarith
  then show ?thesis
    using ln_add_exp[of a b] ln_add_exp[of b a]
    by (auto simp: logSumExp_def mass_def of_mass_def add.commute)
qed


text \<open>Evaluation on logarithms of probabilities.\<close>

lemma logSumExp_ln:
  assumes "0 < p" "0 < q" "p \<noteq> 1" "q \<noteq> 1"
  shows "logSumExp (Some (ln p)) (Some (ln q)) = Some (ln (p + q))"
  using assms by (simp add: logSumExp_of_mass mass_def of_mass_def add_pos_pos)

lemma num_add_ln:
  "0 < p \<Longrightarrow> 0 < q \<Longrightarrow> num_add (Some (ln p)) (Some (ln q)) = Some (ln (p * q))"
  by (simp add: num_add_def ln_mult_pos)

lemma num_add_None: "num_add None x = None" "num_add x None = None"
  by (cases x; simp add: num_add_def)+

lemma num_gt_ln:
  "0 < p \<Longrightarrow> 0 < q \<Longrightarrow> num_gt (Some (ln p)) (Some (ln q)) = (q < p)"
  by (simp add: num_gt_def)

lemma num_gt_None: "num_gt None x = False" "num_gt x None = False"
  by (cases x; simp add: num_gt_def)+


lemma abc_eq:
  "abc = \<lparr>vocabulary = \<lparr>charToIndex = [''a'' \<mapsto> 0, ''b'' \<mapsto> 1],
                         indexToChar = [0 \<mapsto> ''a'', 1 \<mapsto> ''b''], blankIndex = 2\<rparr>,
          vocabSize = 2, ctc_blankIndex = 2\<rparr>"
  by (simp add: abc_def CTCBeamSearch_new_def Vocabulary_new_def)

lemma bac_eq:
  "bac = \<lparr>vocabulary = \<lparr>charToIndex = [''b'' \<mapsto> 0, ''a'' \<mapsto> 1],
                         indexToChar = [0 \<mapsto> ''b'', 1 \<mapsto> ''a''], blankIndex = 2\<rparr>,
          vocabSize = 2, ctc_blankIndex = 2\<rparr>"
  by (simp add: bac_def CTCBeamSearch_new_def Vocabulary_new_def)

lemma blank_first_eq:
  "blank_first = \<lparr>vocabulary = \<lparr>charToIndex = [''a'' \<mapsto> 1, ''b'' \<mapsto> 2],
                                 indexToChar = [1 \<mapsto> ''a'', 2 \<mapsto> ''b''], blankIndex = 0\<rparr>,
                  vocabSize = 2, ctc_blankIndex = 0\<rparr>"
  by (simp add: blank_first_def CTCBeamSearch_new_def Vocabulary_new_def)

text \<open>The holes that pad a beam, one at a time.\<close>

lemma holes_numeral:
  "replicate (numeral k) (None :: BeamEntry option) = None # replicate (pred_numeral k) None"
  by (simp add: numeral_eq_Suc)

lemmas run_simps =
  search_def step_def expand_def successors_def add_def copy_def extend_def
  BeamEntry_new_def calculateLast_def convertToStr_def merge_into_def BeamList_new_def
  sort_beams_def set_length_def sort_by_pTotal_def row_at_def Object_prototype_keys_def
  top1_label_def feed_def Let_def upt_rec holes_numeral
  logSumExp_ln logSumExp_zero_left logSumExp_zero_right logSumExp_None
  num_add_ln num_add_zero num_add_None num_gt_ln num_gt_None

subsection \<open>logSumExp\<close>

text \<open>
  C7. \<open>logSumExp\<close> is commutative, and the sentinel \<open>0\<close> is its identity on either side.
  This holds for every pair of arguments, \<open>NaN\<close> included: when neither argument is the
  sentinel, both orders evaluate the same expression, the larger argument plus
  \<open>log1p(exp(smaller - larger))\<close>.
\<close>

theorem logSumExp_commutative_with_identity:
  "logSumExp a b = logSumExp b a \<and> logSumExp (Some 0) x = x \<and> logSumExp x (Some 0) = x"
  by (cases a; cases b) (auto simp: logSumExp_def)

subsection \<open>extend on the last label, and copy\<close>

text \<open>
  C8. \<open>extend\<close> with the index equal to \<open>_last\<close>: when \<open>pBlank\<close> is the sentinel \<open>0\<close>
  there is no successor; otherwise the successor has \<open>pNonBlank\<close> and \<open>pTotal\<close> both
  equal to \<open>pBlank + prob\<close>, and its sequence is the old one with the index appended.
\<close>

theorem extend_same_label:
  "index = last_idx this \<Longrightarrow>
     (pBlank this = Some 0 \<longrightarrow> extend this index prob blank = None) \<and>
     (pBlank this \<noteq> Some 0 \<longrightarrow>
        (\<exists>r. extend this index prob blank = Some r \<and>
             pNonBlank r = num_add (pBlank this) prob \<and>
             pTotal r = num_add (pBlank this) prob \<and>
             seq r = seq this @ [index]))"
  by (auto simp: extend_def BeamEntry_new_def Let_def)

theorem extend_same_label_witness:
  "extend (BeamEntry [1] (Some (-3)) (Some 0) (Some (-3)) 1 None None) 1 (Some (-4)) (Some (-5))
     = None \<and>
   (\<exists>r. extend (BeamEntry [1] (Some (-1)) (Some (-2)) (Some (-3)) 1 None None) 1
           (Some (-4)) (Some (-5)) = Some r \<and>
        pNonBlank r = Some (-6) \<and> pTotal r = Some (-6) \<and> seq r = [1, 1])"
  using extend_same_label
          [of 1 "BeamEntry [1] (Some (-3)) (Some 0) (Some (-3)) 1 None None" "Some (-4)" "Some (-5)"]
        extend_same_label
          [of 1 "BeamEntry [1] (Some (-1)) (Some (-2)) (Some (-3)) 1 None None" "Some (-4)" "Some (-5)"]
  by (simp add: num_add_def)

text \<open>
  C9. \<open>copy\<close> returns nothing for a candidate with no last label (\<open>_last = -1\<close>). For
  every other candidate it returns a successor with the same sequence, whose \<open>pNonBlank\<close>
  is the old \<open>pNonBlank\<close> plus the row's entry at \<open>_last\<close>, and whose \<open>pTotal\<close> is the
  log-sum of the successor's \<open>pBlank\<close> and \<open>pNonBlank\<close>.
\<close>

theorem copy_successor:
  "(last_idx this = -1 \<longrightarrow> copy this row blank = None) \<and>
   (last_idx this \<noteq> -1 \<longrightarrow>
      (\<exists>r. copy this row blank = Some r \<and> seq r = seq this \<and>
           pNonBlank r = num_add (pNonBlank this) (row_at row (last_idx this)) \<and>
           pTotal r = logSumExp (pBlank r) (pNonBlank r)))"
  by (auto simp: copy_def BeamEntry_new_def Let_def logSumExp_commute)

theorem copy_successor_witness:
  "copy (BeamEntry_new [] None) [-1, -2, -3] (Some (-3)) = None \<and>
   (\<exists>r. copy (BeamEntry [1] (Some (-2)) (Some 0) (Some (-2)) 1 None None) [-1, -2, -3] (Some (-3))
           = Some r \<and>
        seq r = [1] \<and> pNonBlank r = Some (-4) \<and>
        pTotal r = logSumExp (pBlank r) (pNonBlank r))"
  using copy_successor [of "BeamEntry_new [] None" "[-1, -2, -3]" "Some (-3)"]
        copy_successor [of "BeamEntry [1] (Some (-2)) (Some 0) (Some (-2)) 1 None None"
                           "[-1, -2, -3]" "Some (-3)"]
  by (simp add: BeamEntry_new_def calculateLast_def num_add_def row_at_def)

subsection \<open>Properties kept by the pool and by the search\<close>

lemma add_preserves:
  assumes k: "kept_by_pool P v"
    and l: "\<forall>e \<in> set (beamList l). P e"
    and b: "\<forall>e. beam = Some e \<longrightarrow> P e"
  shows "\<forall>e \<in> set (beamList (add l beam v)). P e"
proof (cases beam)
  case None
  then show ?thesis using l by (simp add: add_def)
next
  case (Some b0)
  obtain label b' where c: "convertToStr b0 v = (label, b')" by (cases "convertToStr b0 v")
  have "P b0" using b Some by simp
  then have "P (snd (convertToStr b0 v))" using k unfolding kept_by_pool_def by blast
  then have pb': "P b'" using c by simp
  show ?thesis
  proof (cases "beams l label")
    case None
    then show ?thesis using l pb' Some c by (auto simp: add_def)
  next
    case (Some i)
    show ?thesis
    proof (cases "i < length (beamList l)")
      case True
      then have "P (beamList l ! i)" using l by simp
      then have m: "P (merge_into (beamList l ! i) b')"
        using k pb' unfolding kept_by_pool_def by blast
      have "set ((beamList l)[i := merge_into (beamList l ! i) b']) \<subseteq>
              insert (merge_into (beamList l ! i) b') (set (beamList l))"
        by (rule set_update_subset_insert)
      then have "\<forall>e \<in> set ((beamList l)[i := merge_into (beamList l ! i) b']). P e"
        using m l by blast
      then show ?thesis using \<open>beam = Some b0\<close> c Some by (simp add: add_def)
    next
      case False
      then have "(beamList l)[i := merge_into (beamList l ! i) b'] = beamList l"
        by (simp add: list_update_beyond)
      then show ?thesis using \<open>beam = Some b0\<close> c Some l by (simp add: add_def)
    qed
  qed
qed

lemma fold_add_preserves:
  assumes k: "kept_by_pool P v"
  shows "\<forall>e \<in> set (beamList l). P e \<Longrightarrow> \<forall>r. Some r \<in> set ss \<longrightarrow> P r \<Longrightarrow>
      \<forall>e \<in> set (beamList (foldl (\<lambda>l s. add l s v) l ss)). P e"
proof (induction ss arbitrary: l)
  case Nil
  then show ?case by simp
next
  case (Cons s ss)
  have "\<forall>e. s = Some e \<longrightarrow> P e" using Cons.prems(2) by simp
  then have 1: "\<forall>e \<in> set (beamList (add l s v)). P e"
    using add_preserves k Cons.prems(1) by blast
  have 2: "\<forall>r. Some r \<in> set ss \<longrightarrow> P r" using Cons.prems(2) by simp
  show ?case using Cons.IH[OF 1 2] by simp
qed

lemma expand_preserves:
  assumes k: "kept_by_pool P (vocabulary this)"
    and succ: "kept_by_successors P this row"
    and l: "\<forall>e \<in> set (beamList l). P e"
    and b: "\<forall>e. slot = Some e \<longrightarrow> P e"
  shows "\<forall>e \<in> set (beamList (expand this row l slot)). P e"
proof (cases slot)
  case None
  then show ?thesis using l by (simp add: expand_def)
next
  case (Some beam)
  have "P beam" using b Some by simp
  then have "\<forall>r. Some r \<in> set (successors this row beam) \<longrightarrow> P r"
    using succ unfolding kept_by_successors_def by blast
  then have "\<forall>e \<in> set (beamList (foldl (\<lambda>l s. add l s (vocabulary this)) l
                 (successors this row beam))). P e"
    using fold_add_preserves[OF k l] by blast
  then show ?thesis using Some by (simp add: expand_def)
qed

lemma fold_expand_preserves:
  assumes k: "kept_by_pool P (vocabulary this)"
    and succ: "kept_by_successors P this row"
  shows "\<forall>e \<in> set (beamList l). P e \<Longrightarrow> \<forall>e. Some e \<in> set xs \<longrightarrow> P e \<Longrightarrow>
      \<forall>e \<in> set (beamList (foldl (expand this row) l xs)). P e"
proof (induction xs arbitrary: l)
  case Nil
  then show ?case by simp
next
  case (Cons x xs)
  have "\<forall>e. x = Some e \<longrightarrow> P e" using Cons.prems(2) by simp
  then have 1: "\<forall>e \<in> set (beamList (expand this row l x)). P e"
    using expand_preserves[OF k succ Cons.prems(1)] by blast
  have 2: "\<forall>e. Some e \<in> set xs \<longrightarrow> P e" using Cons.prems(2) by simp
  show ?case using Cons.IH[OF 1 2] by simp
qed

lemma set_insert_by_pTotal: "set (insert_by_pTotal a bs) = insert a (set bs)"
  by (induction bs) auto

lemma set_sort_by_pTotal: "set (sort_by_pTotal xs) = set xs"
  by (induction xs) (simp_all add: sort_by_pTotal_def set_insert_by_pTotal)

lemma sort_beams_members:
  "sort_beams l = Inr bs \<Longrightarrow> Some e \<in> set bs \<Longrightarrow> e \<in> set (beamList l)"
  by (auto simp: sort_beams_def set_length_def set_sort_by_pTotal split: if_splits dest!: in_set_takeD)

lemma pool_preserves:
  assumes k: "kept_by_pool P (vocabulary this)"
    and succ: "kept_by_successors P this row"
    and bs: "\<forall>e. Some e \<in> set bs \<longrightarrow> P e"
  shows "\<forall>e \<in> set (beamList (foldl (expand this row) (BeamList_new width) bs)). P e"
proof -
  have "\<forall>e \<in> set (beamList (BeamList_new width)). P e" by (simp add: BeamList_new_def)
  then show ?thesis using fold_expand_preserves[OF k succ] bs by blast
qed

lemma search_rows_preserves:
  assumes k: "kept_by_pool P (vocabulary this)"
  shows "\<forall>row \<in> set rows. kept_by_successors P this row \<Longrightarrow>
         \<forall>e. Some e \<in> set bs \<longrightarrow> P e \<Longrightarrow> search_rows this width bs rows = Inr bs' \<Longrightarrow>
         Some e' \<in> set bs' \<Longrightarrow> P e'"
proof (induction rows arbitrary: bs)
  case Nil
  then show ?case by simp
next
  case (Cons row rows)
  from Cons.prems(3) obtain bs1 where s: "step this width bs row = Inr bs1"
    and r: "search_rows this width bs1 rows = Inr bs'"
    by (auto split: sum.splits)
  have succ: "kept_by_successors P this row" using Cons.prems(1) by simp
  have rest: "\<forall>row \<in> set rows. kept_by_successors P this row" using Cons.prems(1) by simp
  have "\<forall>e \<in> set (beamList (foldl (expand this row) (BeamList_new width) bs)). P e"
    using pool_preserves[OF k succ Cons.prems(2)] by blast
  then have "\<forall>e. Some e \<in> set bs1 \<longrightarrow> P e"
    using s sort_beams_members unfolding step_def by blast
  then show ?case using Cons.IH[OF rest] r Cons.prems(4) by blast
qed

text \<open>The beam after the rows \<open>m @ [row]\<close> is one step from the beam after \<open>m\<close>.\<close>

lemma search_rows_append:
  "search_rows this width bs (m @ [row]) =
     (case search_rows this width bs m of
        Inl e \<Rightarrow> Inl e
      | Inr bs' \<Rightarrow> step this width bs' row)"
  by (induction m arbitrary: bs) (auto split: sum.splits)

subsection \<open>The last index\<close>

lemma calculateLast_last: "calculateLast s = (if s = [] then -1 else last s)"
  by (simp add: calculateLast_def last_conv_nth)

lemma last_ok_root: "last_ok (BeamEntry_new [] None)"
  by (simp add: last_ok_def BeamEntry_new_def calculateLast_last)

lemma last_ok_copy: "last_ok e \<Longrightarrow> copy e row blank = Some r \<Longrightarrow> last_ok r"
  by (auto simp: last_ok_def copy_def BeamEntry_new_def calculateLast_last Let_def split: if_splits)

lemma last_ok_extend: "extend e index prob blank = Some r \<Longrightarrow> last_ok r"
  by (auto simp: last_ok_def extend_def BeamEntry_new_def calculateLast_last Let_def split: if_splits)

lemma last_ok_merge: "last_ok e \<Longrightarrow> last_ok (merge_into e b)"
  by (simp add: last_ok_def merge_into_def)

lemma last_ok_memo: "last_ok e \<Longrightarrow> last_ok (snd (convertToStr e v))"
  by (simp add: last_ok_def convertToStr_def Let_def split: option.splits)

lemma last_ok_successors:
  "last_ok e \<Longrightarrow> Some r \<in> set (successors this row e) \<Longrightarrow> last_ok r"
  by (auto simp: successors_def intro: last_ok_copy[OF _ sym] last_ok_extend[OF sym])

lemma last_ok_kept: "kept_by_pool last_ok v" "kept_by_successors last_ok this row"
  unfolding kept_by_pool_def kept_by_successors_def
  using last_ok_merge last_ok_memo last_ok_successors by blast+

text \<open>
  C10. Every entry made during a search has \<open>_last\<close> equal to the final element of its
  sequence, or to \<open>-1\<close> when the sequence is empty: the root; every entry of the beam
  that a search returns (the beam after any number of rows is what the search returns on
  those rows); every successor made from such an entry against a further row; and every
  member of the next pool, merged or not, whether or not it survives the pruning. The
  constructor recomputes \<open>_last\<close> from the sequence when it is handed \<open>0\<close>, and finds \<open>0\<close>
  again.
\<close>

theorem last_idx_is_last_of_seq:
  "last_ok (BeamEntry_new [] None) \<and>
   (search this logProbs width = Inr bs \<longrightarrow> Some e \<in> set bs \<longrightarrow>
      last_ok e \<and>
      (\<forall>r. Some r \<in> set (successors this row e) \<longrightarrow> last_ok r) \<and>
      (\<forall>c \<in> set (beamList (foldl (expand this row) (BeamList_new width) bs)). last_ok c))"
proof -
  have r: "\<forall>e. Some e \<in> set [Some (BeamEntry_new [] None)] \<longrightarrow> last_ok e"
    using last_ok_root by simp
  have all: "\<forall>row \<in> set logProbs. kept_by_successors last_ok this row"
    using last_ok_kept(2) by blast
  have a: "search this logProbs width = Inr bs \<Longrightarrow> Some x \<in> set bs \<Longrightarrow> last_ok x" for x
    unfolding search_def
    using search_rows_preserves[OF last_ok_kept(1) all r] by blast
  then have b: "search this logProbs width = Inr bs \<Longrightarrow>
     (\<forall>c \<in> set (beamList (foldl (expand this row) (BeamList_new width) bs)). last_ok c)"
    using pool_preserves[OF last_ok_kept] by blast
  show ?thesis using a b last_ok_root last_ok_successors by blast
qed

text \<open>
  The search on one row of \<open>abc\<close> with width 2 returns the entries for \<open>b\<close> and for the
  empty string. Expanding the first against a second row gives a copy and, for index
  \<open>0\<close>, an entry whose constructor was handed \<open>0\<close> and recomputed \<open>_last\<close>.
\<close>

theorem last_idx_is_last_of_seq_witness:
  "search abc [[ln (1 / 100), ln (98 / 100), ln (1 / 100)]] 2 =
     Inr [Some (BeamEntry [1] (Some (ln (49 / 50))) (Some 0) (Some (ln (49 / 50))) 1 (Some ''b'')
                 (Some (BeamEntry [] (Some 0) (Some 0) (Some 0) (- 1) None None))),
          Some (BeamEntry [] (Some (ln (1 / 50))) (Some 0) (Some 0) (- 1) (Some [])
                 (Some (BeamEntry [] (Some 0) (Some 0) (Some 0) (- 1) None None)))] \<and>
   last_ok (BeamEntry [1] (Some (ln (49 / 50))) (Some 0) (Some (ln (49 / 50))) 1 (Some ''b'')
              (Some (BeamEntry [] (Some 0) (Some 0) (Some 0) (- 1) None None))) \<and>
   (\<exists>r. Some r \<in> set (successors abc [ln (1 / 100), ln (1 / 100), ln (98 / 100)]
              (BeamEntry [1] (Some (ln (49 / 50))) (Some 0) (Some (ln (49 / 50))) 1 (Some ''b'')
                 (Some (BeamEntry [] (Some 0) (Some 0) (Some 0) (- 1) None None)))) \<and>
        seq r = [1, 0] \<and> last_idx r = 0 \<and> last_ok r)"
proof -
  let ?root = "BeamEntry [] (Some 0) (Some 0) (Some 0) (- 1) None None"
  let ?b = "BeamEntry [1] (Some (ln (49 / 50))) (Some 0) (Some (ln (49 / 50))) 1 (Some ''b'')
              (Some ?root)"
  let ?e = "BeamEntry [] (Some (ln (1 / 50))) (Some 0) (Some 0) (- 1) (Some []) (Some ?root)"
  let ?r = "BeamEntry [1, 0] (Some (ln (49 / 5000))) (Some 0) (Some (ln (49 / 5000))) 0 None
              (Some ?b)"
  let ?row = "[ln (1 / 100), ln (1 / 100), ln (98 / 100)] :: real list"
  have s: "search abc [[ln (1 / 100), ln (98 / 100), ln (1 / 100)]] 2 = Inr [Some ?b, Some ?e]"
    by (simp add: abc_eq run_simps)
  have m: "Some ?r \<in> set (successors abc ?row ?b)"
    by (simp add: abc_eq run_simps)
  have i: "Some ?b \<in> set [Some ?b, Some ?e]" by simp
  have "last_ok ?b \<and> last_ok ?r"
    using last_idx_is_last_of_seq
            [of abc "[[ln (1 / 100), ln (98 / 100), ln (1 / 100)]]" 2 "[Some ?b, Some ?e]" ?b ?row]
          s m i
    by blast
  then show ?thesis using s m by (intro conjI exI[of _ ?r]) simp_all
qed

subsection \<open>The total and the log-sum of the two parts\<close>






text \<open>
  Why the merge needs the condition: an entry whose two parts are \<open>ln 0.5\<close> each has
  the total \<open>ln 1 = 0\<close>, which the merge of the totals takes for the sentinel. Merged
  into an entry with parts \<open>ln 0.25\<close> each, the parts become \<open>ln 0.75\<close> each, with
  log-sum \<open>ln 1.5\<close>, while the total stays \<open>ln 0.5\<close>.
\<close>

lemma merge_spurious_zero:
  "total_is_logsum (BeamEntry [1] (Some (ln (1 / 2))) (Some (ln (1 / 4))) (Some (ln (1 / 4))) 1 None None) \<and>
   total_is_logsum (BeamEntry [1] (Some 0) (Some (ln (1 / 2))) (Some (ln (1 / 2))) 1 None None) \<and>
   spurious_zero (Some (ln (1 / 2))) (Some (ln (1 / 2))) \<and>
   merge_into (BeamEntry [1] (Some (ln (1 / 2))) (Some (ln (1 / 4))) (Some (ln (1 / 4))) 1 None None)
              (BeamEntry [1] (Some 0) (Some (ln (1 / 2))) (Some (ln (1 / 2))) 1 None None)
     = BeamEntry [1] (Some (ln (1 / 2))) (Some (ln (3 / 4))) (Some (ln (3 / 4))) 1 None None \<and>
   logSumExp (Some (ln (3 / 4))) (Some (ln (3 / 4))) = Some (ln (3 / 2)) \<and>
   \<not> total_is_logsum (BeamEntry [1] (Some (ln (1 / 2))) (Some (ln (3 / 4))) (Some (ln (3 / 4))) 1 None None)"
  by (simp add: total_is_logsum_def spurious_zero_def merge_into_def logSumExp_ln logSumExp_zero_left)




subsection \<open>Vocabulary\<close>







text \<open>
  The key \<open>__proto__\<close> (an own key of the object that \<open>JSON.parse\<close> gives for
  \<open>{"__proto__": 0, "a": 1}\<close>) is not stored in \<open>charToIndex\<close>, and not counted.
\<close>

lemma Vocabulary_new_proto_key:
  "charToIndex (Vocabulary_new [(''__proto__'', 0), (''a'', 1)] 2) = [''a'' \<mapsto> 1] \<and>
   indexToChar (Vocabulary_new [(''__proto__'', 0), (''a'', 1)] 2) = [0 \<mapsto> ''__proto__'', 1 \<mapsto> ''a''] \<and>
   vocabSize (CTCBeamSearch_new (Vocabulary_new [(''__proto__'', 0), (''a'', 1)] 2)) = 1"
  by (simp add: Vocabulary_new_def CTCBeamSearch_new_def)

subsection \<open>The width, and what search checks\<close>

lemma size_w_add: "size_w (add l s v) = size_w l"
  by (simp add: add_def Let_def split: option.splits prod.splits)

lemma size_w_fold_add: "size_w (foldl (\<lambda>l s. add l s v) l ss) = size_w l"
  by (induction ss arbitrary: l) (simp_all add: size_w_add)

lemma size_w_expand: "size_w (expand this row l slot) = size_w l"
  by (simp add: expand_def size_w_fold_add split: option.splits)

lemma size_w_fold_expand: "size_w (foldl (expand this row) l bs) = size_w l"
  by (induction bs arbitrary: l) (simp_all add: size_w_expand)

lemma mset_insert_by_pTotal: "mset (insert_by_pTotal a bs) = add_mset a (mset bs)"
  by (induction bs) auto

lemma mset_sort_by_pTotal: "mset (sort_by_pTotal xs) = mset xs"
  by (induction xs) (simp_all add: sort_by_pTotal_def mset_insert_by_pTotal)

lemma length_sort_by_pTotal: "length (sort_by_pTotal xs) = length xs"
  using mset_sort_by_pTotal[of xs] by (metis size_mset)

lemma sort_beams_valid:
  "0 \<le> size_w l \<Longrightarrow> size_w l \<le> 4294967295 \<Longrightarrow>
   sort_beams l = Inr (map Some (take (nat (size_w l)) (sort_by_pTotal (beamList l))) @
                       replicate (nat (size_w l) - length (beamList l)) None)"
  by (simp add: sort_beams_def set_length_def length_sort_by_pTotal take_map)

lemma sort_beams_invalid:
  "size_w l < 0 \<or> 4294967295 < size_w l \<Longrightarrow> sort_beams l = Inl RangeError"
  by (auto simp: sort_beams_def set_length_def)

lemma step_valid:
  "0 \<le> width \<Longrightarrow> width \<le> 4294967295 \<Longrightarrow>
   \<exists>bs'. step this width bs row = Inr bs' \<and> length bs' = nat width"
  unfolding step_def
  using sort_beams_valid[of "foldl (expand this row) (BeamList_new width) bs"]
  by (auto simp: size_w_fold_expand BeamList_new_def length_sort_by_pTotal)

lemma step_invalid:
  "width < 0 \<or> 4294967295 < width \<Longrightarrow> step this width bs row = Inl RangeError"
  unfolding step_def
  using sort_beams_invalid[of "foldl (expand this row) (BeamList_new width) bs"]
  by (simp add: size_w_fold_expand BeamList_new_def)

lemma search_rows_valid:
  "0 \<le> width \<Longrightarrow> width \<le> 4294967295 \<Longrightarrow>
   \<exists>bs'. search_rows this width bs rows = Inr bs' \<and> (rows \<noteq> [] \<longrightarrow> length bs' = nat width)"
proof (induction rows arbitrary: bs)
  case Nil
  then show ?case by simp
next
  case (Cons row rows)
  obtain bs1 where s: "step this width bs row = Inr bs1" "length bs1 = nat width"
    using step_valid[OF Cons.prems] by blast
  obtain bs2 where r: "search_rows this width bs1 rows = Inr bs2"
      "rows \<noteq> [] \<longrightarrow> length bs2 = nat width"
    using Cons.IH[OF Cons.prems] by blast
  have "rows = [] \<Longrightarrow> bs2 = bs1" using r(1) by simp
  then show ?case using s r by auto
qed

text \<open>
  C4, as the code has it. \<open>search\<close> checks neither the width nor the matrix, and has no
  \<open>InvalidArgument\<close> or \<open>InvalidInput\<close> failure. On an empty matrix it returns the beam
  holding the root, for every width. On a non-empty matrix it returns a beam of exactly
  \<open>width\<close> slots for every width from 0 to \<open>2^32 - 1\<close>, whatever the lengths of the rows.
  Its one failure is the \<open>RangeError\<close> of the array-length assignment in \<open>sort\<close>, for
  a width below 0 or above \<open>2^32 - 1\<close> on a non-empty matrix; it is thrown at the end of
  the first time step, after that step's candidates have been computed.
\<close>

theorem search_checks_nothing:
  "search this [] width = Inr [Some (BeamEntry_new [] None)] \<and>
   (0 \<le> width \<and> width \<le> 4294967295 \<longrightarrow>
      (\<exists>bs. search this logProbs width = Inr bs \<and>
            (logProbs \<noteq> [] \<longrightarrow> length bs = nat width))) \<and>
   (logProbs \<noteq> [] \<and> (width < 0 \<or> 4294967295 < width) \<longrightarrow>
      search this logProbs width = Inl RangeError)"
proof -
  have a: "search this [] width = Inr [Some (BeamEntry_new [] None)]"
    by (simp add: search_def)
  have b: "0 \<le> width \<and> width \<le> 4294967295 \<longrightarrow>
      (\<exists>bs. search this logProbs width = Inr bs \<and> (logProbs \<noteq> [] \<longrightarrow> length bs = nat width))"
    unfolding search_def using search_rows_valid by blast
  have c: "logProbs \<noteq> [] \<and> (width < 0 \<or> 4294967295 < width) \<longrightarrow>
      search this logProbs width = Inl RangeError"
    unfolding search_def using step_invalid by (cases logProbs) auto
  show ?thesis using a b c by blast
qed

text \<open>A row of two numbers for the three-symbol alphabet, with width 1 and with width -1.\<close>

theorem search_checks_nothing_witness:
  "(\<exists>bs. search abc [[ln (1 / 2), ln (1 / 2)]] 1 = Inr bs \<and> length bs = 1) \<and>
   search abc [[ln (1 / 2), ln (1 / 2)]] (- 1) = Inl RangeError"
  using search_checks_nothing [of abc 1 "[[ln (1 / 2), ln (1 / 2)]]"]
        search_checks_nothing [of abc "- 1" "[[ln (1 / 2), ln (1 / 2)]]"]
  by simp

text \<open>
  Width \<open>0\<close> on a well-formed row returns the empty beam; the empty matrix returns the
  root; a row that is too short returns an entry whose total is \<open>NaN\<close>. None is rejected.
\<close>

theorem search_checks_nothing_counterexample:
  "search abc [[ln (98 / 100), ln (1 / 100), ln (1 / 100)]] 0 = Inr [] \<and>
   search abc [] 1 = Inr [Some (BeamEntry_new [] None)] \<and>
   search abc [[ln (1 / 2), ln (1 / 2)]] 1 =
     Inr [Some (BeamEntry [] None (Some 0) (Some 0) (- 1) (Some [])
                  (Some (BeamEntry [] (Some 0) (Some 0) (Some 0) (- 1) None None)))]"
  by (simp add: abc_eq run_simps)

subsection \<open>The pool and its sort\<close>

lemma pool_labels_new: "pool_labels (BeamList_new w) []"
  by (simp add: pool_labels_def BeamList_new_def)

lemma pool_labels_add_None: "pool_labels l labs \<Longrightarrow> pool_labels (add l None v) labs"
  by (simp add: add_def)

lemma pool_labels_add_Some:
  assumes p: "pool_labels l labs"
  shows "pool_labels (add l (Some b) v)
           (if label_of v b \<in> set labs \<or> label_of v b \<in> set Object_prototype_keys then labs
            else labs @ [label_of v b])"
proof -
  obtain lab b' where c: "convertToStr b v = (lab, b')" by (cases "convertToStr b v")
  then have lab: "label_of v b = lab" by (simp add: label_of_def)
  show ?thesis
  proof (cases "beams l lab")
    case (Some i)
    then have "lab \<in> set labs" using p by (auto simp: pool_labels_def)
    then show ?thesis using p Some c lab by (simp add: add_def pool_labels_def)
  next
    case None
    then have notin: "lab \<notin> set labs" using p by (auto simp: pool_labels_def)
    show ?thesis
    proof (cases "lab \<in> set Object_prototype_keys")
      case True
      then show ?thesis using p None c lab notin by (simp add: add_def)
    next
      case False
      have "\<forall>i < length labs. labs ! i \<noteq> lab" using notin by auto
      then show ?thesis using p None c lab notin False
        by (auto simp: add_def pool_labels_def nth_append)
    qed
  qed
qed

lemma pool_labels_feed:
  "pool_labels l labs \<Longrightarrow>
   \<exists>labs'. pool_labels (feed l cands v) labs' \<and>
           set labs' = set labs \<union> (labels_seen v cands - set Object_prototype_keys)"
proof (induction cands arbitrary: l labs)
  case Nil
  then show ?case by (auto simp: labels_seen_def feed_def)
next
  case (Cons c cands)
  show ?case
  proof (cases c)
    case None
    have "labels_seen v (c # cands) = labels_seen v cands"
      using None by (auto simp: labels_seen_def)
    then show ?thesis using Cons.IH[OF pool_labels_add_None[OF Cons.prems]] None
      by (simp add: feed_def)
  next
    case (Some b)
    let ?labs = "if label_of v b \<in> set labs \<or> label_of v b \<in> set Object_prototype_keys then labs
            else labs @ [label_of v b]"
    have s: "labels_seen v (c # cands) = insert (label_of v b) (labels_seen v cands)"
      using Some by (auto simp: labels_seen_def)
    obtain labs' where l: "pool_labels (feed (add l (Some b) v) cands v) labs'"
      "set labs' = set ?labs \<union> (labels_seen v cands - set Object_prototype_keys)"
      using Cons.IH[OF pool_labels_add_Some[OF Cons.prems]] by blast
    have "set labs' = set labs \<union> (labels_seen v (c # cands) - set Object_prototype_keys)"
      using l(2) s by auto
    then show ?thesis using l(1) Some by (auto simp: feed_def)
  qed
qed

lemma pool_count:
  "length (beamList (feed (BeamList_new w) cands v))
     = card (labels_seen v cands - set Object_prototype_keys)"
proof -
  obtain labs where l: "pool_labels (feed (BeamList_new w) cands v) labs"
    "set labs = labels_seen v cands - set Object_prototype_keys"
    using pool_labels_feed[OF pool_labels_new, where cands = cands and v = v and w1 = w] by auto
  have "length labs = card (set labs)" using l(1) by (simp add: pool_labels_def distinct_card)
  then show ?thesis using l by (simp add: pool_labels_def)
qed

lemma sorted_insert_by_pTotal:
  "pTotal a \<noteq> None \<Longrightarrow> \<forall>e \<in> set bs. pTotal e \<noteq> None \<Longrightarrow>
   sorted_wrt (\<lambda>x y. num_ge (pTotal x) (pTotal y)) bs \<Longrightarrow>
   sorted_wrt (\<lambda>x y. num_ge (pTotal x) (pTotal y)) (insert_by_pTotal a bs)"
proof (induction bs)
  case Nil
  then show ?case by simp
next
  case (Cons b bs)
  then show ?case
    by (auto simp: set_insert_by_pTotal num_ge_def num_gt_def split: option.splits)
qed

lemma sorted_sort_by_pTotal:
  "\<forall>e \<in> set xs. pTotal e \<noteq> None \<Longrightarrow>
   sorted_wrt (\<lambda>x y. num_ge (pTotal x) (pTotal y)) (sort_by_pTotal xs)"
proof (induction xs)
  case Nil
  then show ?case by (simp add: sort_by_pTotal_def)
next
  case (Cons x xs)
  have "sort_by_pTotal (x # xs) = insert_by_pTotal x (sort_by_pTotal xs)"
    by (simp add: sort_by_pTotal_def)
  then show ?case using Cons sorted_insert_by_pTotal[of x "sort_by_pTotal xs"]
    by (simp add: set_sort_by_pTotal)
qed

text \<open>
  The pool of a time step is a fresh pool fed the successors of the beams, in order.
\<close>

lemma feed_append: "feed l (xs @ ys) v = feed (feed l xs v) ys v"
  by (simp add: feed_def)

lemma expand_as_feed:
  "expand this row l slot =
     feed l (case slot of None \<Rightarrow> [] | Some beam \<Rightarrow> successors this row beam) (vocabulary this)"
  by (simp add: expand_def feed_def split: option.splits)

lemma pool_as_feed:
  "foldl (expand this row) l bs =
     feed l (concat (map (\<lambda>slot. case slot of None \<Rightarrow> []
                                   | Some beam \<Rightarrow> successors this row beam) bs))
       (vocabulary this)"
proof (induction bs arbitrary: l)
  case Nil
  then show ?case by (simp add: feed_def)
next
  case (Cons b bs)
  then show ?case by (simp add: feed_append expand_as_feed)
qed

lemma labels_seen_simps:
  "labels_seen v [] = {}"
  "labels_seen v (None # cands) = labels_seen v cands"
  "labels_seen v (Some b # cands) = insert (label_of v b) (labels_seen v cands)"
  by (auto simp: labels_seen_def)

text \<open>
  Contrary to the doc comment of \<open>add\<close> (``Otherwise, the BeamEntry will be added to the
  list''), a first entry whose label names a property inherited from \<open>Object.prototype\<close>
  is not added: the vocabulary with the one symbol \<open>constructor\<close>, and the entry for it.
\<close>

lemma add_inherited_label:
  "label_of (Vocabulary_new [(''constructor'', 0)] 1) (BeamEntry_new [0] None) = ''constructor'' \<and>
   beamList (add (BeamList_new 3) (Some (BeamEntry_new [0] None))
               (Vocabulary_new [(''constructor'', 0)] 1)) = []"
  by (simp add: label_of_def Vocabulary_new_def run_simps)

text \<open>
  C1, as the code has it. After any sequence of \<open>add\<close> calls on a fresh pool, \<open>sort\<close>
  returns an array of exactly \<open>capacity\<close> slots when the capacity is an integer from 0 to
  \<open>2^32 - 1\<close>, and throws a \<open>RangeError\<close> otherwise. The slots hold the members of the
  pool, reordered and cut at the capacity; the slots left over are holes. When none of
  the labels added names a property inherited from \<open>Object.prototype\<close>, the members are
  as many as the distinct labels added. When the total of every member is a finite number,
  the order is non-increasing in \<open>pTotal\<close>. So the result is never longer than the
  capacity, and never shorter either.
\<close>

theorem sort_beams_fills_capacity:
  "(0 \<le> w \<and> w \<le> 4294967295 \<longrightarrow>
      (\<exists>r sorted.
          sort_beams (feed (BeamList_new w) cands v) = Inr r \<and>
          length r = nat w \<and>
          r = map Some (take (nat w) sorted) @ replicate (nat w - length sorted) None \<and>
          mset sorted = mset (beamList (feed (BeamList_new w) cands v)) \<and>
          (labels_seen v cands \<inter> set Object_prototype_keys = {} \<longrightarrow>
             length sorted = card (labels_seen v cands)) \<and>
          ((\<forall>e \<in> set (beamList (feed (BeamList_new w) cands v)). pTotal e \<noteq> None) \<longrightarrow>
             sorted_wrt (\<lambda>x y. num_ge (pTotal x) (pTotal y)) sorted))) \<and>
   (w < 0 \<or> 4294967295 < w \<longrightarrow>
      sort_beams (feed (BeamList_new w) cands v) = Inl RangeError)"
proof -
  let ?pool = "feed (BeamList_new w) cands v"
  let ?sorted = "sort_by_pTotal (beamList ?pool)"
  have sz: "size_w ?pool = w" by (simp add: feed_def size_w_fold_add BeamList_new_def)
  have "labels_seen v cands - set Object_prototype_keys = labels_seen v cands"
    if "labels_seen v cands \<inter> set Object_prototype_keys = {}"
    using that by blast
  then have len: "labels_seen v cands \<inter> set Object_prototype_keys = {} \<longrightarrow>
             length ?sorted = card (labels_seen v cands)"
    by (simp add: length_sort_by_pTotal pool_count)
  have srt: "(\<forall>e \<in> set (beamList ?pool). pTotal e \<noteq> None) \<longrightarrow>
             sorted_wrt (\<lambda>x y. num_ge (pTotal x) (pTotal y)) ?sorted"
    using sorted_sort_by_pTotal by blast
  have valid: "0 \<le> w \<and> w \<le> 4294967295 \<longrightarrow>
      sort_beams ?pool = Inr (map Some (take (nat w) ?sorted) @
                              replicate (nat w - length ?sorted) None)"
    using sort_beams_valid[of ?pool] sz by (simp add: length_sort_by_pTotal)
  have l: "length (map Some (take (nat w) ?sorted) @ replicate (nat w - length ?sorted) None)
             = nat w"
    by simp
  have invalid: "w < 0 \<or> 4294967295 < w \<longrightarrow> sort_beams ?pool = Inl RangeError"
    using sort_beams_invalid[of ?pool] sz by simp
  show ?thesis
    using valid l len srt invalid mset_sort_by_pTotal[of "beamList ?pool"] by blast
qed

text \<open>
  A pool of capacity 3 fed a nothing, the empty string with total \<open>ln 0.02\<close> and \<open>b\<close> with
  total \<open>ln 0.98\<close>: two labels, two members, \<open>b\<close> first, and the third slot is a hole.
  With capacity \<open>-1\<close> the sort throws.
\<close>

theorem sort_beams_fills_capacity_witness:
  "sort_beams (feed (BeamList_new 3)
      [None,
       Some (BeamEntry [] (Some (ln (1 / 50))) (Some 0) (Some 0) (- 1) None None),
       Some (BeamEntry [1] (Some (ln (49 / 50))) (Some 0) (Some (ln (49 / 50))) 1 None None)]
      (vocabulary abc)) =
     Inr [Some (BeamEntry [1] (Some (ln (49 / 50))) (Some 0) (Some (ln (49 / 50))) 1 (Some ''b'') None),
          Some (BeamEntry [] (Some (ln (1 / 50))) (Some 0) (Some 0) (- 1) (Some []) None),
          None] \<and>
   (\<exists>sorted.
      [Some (BeamEntry [1] (Some (ln (49 / 50))) (Some 0) (Some (ln (49 / 50))) 1 (Some ''b'') None),
       Some (BeamEntry [] (Some (ln (1 / 50))) (Some 0) (Some 0) (- 1) (Some []) None),
       None] = map Some (take 3 sorted) @ replicate (3 - length sorted) None \<and>
      length sorted = 2 \<and>
      sorted_wrt (\<lambda>x y. num_ge (pTotal x) (pTotal y)) sorted) \<and>
   sort_beams (feed (BeamList_new (- 1))
      [None,
       Some (BeamEntry [] (Some (ln (1 / 50))) (Some 0) (Some 0) (- 1) None None),
       Some (BeamEntry [1] (Some (ln (49 / 50))) (Some 0) (Some (ln (49 / 50))) 1 None None)]
      (vocabulary abc)) = Inl RangeError"
proof -
  let ?cands = "[None,
       Some (BeamEntry [] (Some (ln (1 / 50))) (Some 0) (Some 0) (- 1) None None),
       Some (BeamEntry [1] (Some (ln (49 / 50))) (Some 0) (Some (ln (49 / 50))) 1 None None)]"
  let ?out = "[Some (BeamEntry [1] (Some (ln (49 / 50))) (Some 0) (Some (ln (49 / 50))) 1 (Some ''b'') None),
       Some (BeamEntry [] (Some (ln (1 / 50))) (Some 0) (Some 0) (- 1) (Some []) None),
       None]"
  have ev: "sort_beams (feed (BeamList_new 3) ?cands (vocabulary abc)) = Inr ?out"
    by (simp add: abc_eq run_simps)
  have labs: "labels_seen (vocabulary abc) ?cands = {[], ''b''}"
    by (simp add: labels_seen_simps label_of_def abc_eq convertToStr_def Let_def)
  have h1: "labels_seen (vocabulary abc) ?cands \<inter> set Object_prototype_keys = {}"
    unfolding labs by (simp add: Object_prototype_keys_def)
  have c: "card (labels_seen (vocabulary abc) ?cands) = 2"
    unfolding labs by simp
  have h2: "\<forall>e \<in> set (beamList (feed (BeamList_new 3) ?cands (vocabulary abc))). pTotal e \<noteq> None"
    by (simp add: abc_eq run_simps)
  have w3: "(0::int) \<le> 3 \<and> (3::int) \<le> 4294967295" by simp
  have w1: "(- 1 :: int) < 0 \<or> 4294967295 < (- 1 :: int)" by simp
  obtain r sorted where
    r: "sort_beams (feed (BeamList_new 3) ?cands (vocabulary abc)) = Inr r"
       "r = map Some (take (nat 3) sorted) @ replicate (nat 3 - length sorted) None"
       "length sorted = card (labels_seen (vocabulary abc) ?cands)"
       "sorted_wrt (\<lambda>x y. num_ge (pTotal x) (pTotal y)) sorted"
    using sort_beams_fills_capacity [of 3 ?cands "vocabulary abc"] w3 h1 h2 by blast
  have e: "sort_beams (feed (BeamList_new (- 1)) ?cands (vocabulary abc)) = Inl RangeError"
    using sort_beams_fills_capacity [of "- 1" ?cands "vocabulary abc"] w1 by blast
  have "r = ?out" using r(1) ev by simp
  then have "?out = map Some (take 3 sorted) @ replicate (3 - length sorted) None"
    using r(2) by simp
  moreover have "length sorted = 2" using r(3) c by simp
  ultimately show ?thesis using ev e r(4) by blast
qed

text \<open>
  A pool of capacity 3 fed one candidate, the root: one distinct label, and \<open>sort\<close>
  returns three slots, the root and two holes.
\<close>

theorem sort_beams_fills_capacity_counterexample:
  "\<exists>r. sort_beams (feed (BeamList_new 3) [Some (BeamEntry_new [] None)] (vocabulary abc)) = Inr r \<and>
       r = [Some (BeamEntry [] (Some 0) (Some 0) (Some 0) (- 1) (Some []) None), None, None] \<and>
       labels_seen (vocabulary abc) [Some (BeamEntry_new [] None)] = {[]} \<and>
       length r \<noteq> min 3 (card (labels_seen (vocabulary abc) [Some (BeamEntry_new [] None)]))"
proof -
  have a: "sort_beams (feed (BeamList_new 3) [Some (BeamEntry_new [] None)] (vocabulary abc)) =
      Inr [Some (BeamEntry [] (Some 0) (Some 0) (Some 0) (- 1) (Some []) None), None, None]"
    by (simp add: abc_eq run_simps)
  have b: "labels_seen (vocabulary abc) [Some (BeamEntry_new [] None)] = {[]}"
    by (simp add: labels_seen_simps label_of_def abc_eq convertToStr_def BeamEntry_new_def Let_def)
  show ?thesis using a b by simp
qed

subsection \<open>Decoding the path a, blank, a, blank, b, blank\<close>







text \<open>
  With probability 0.98 in the place of log-probability \<open>0\<close>, the first result over \<open>bac\<close>
  is \<open>aab\<close>: the \<open>ab\<close> above hangs on the value \<open>0\<close> itself, which is also the sentinel.
\<close>

lemma path98_bac_1: "top1_label bac (search bac path98_bac 1) = Some ''aab''"
  by (simp add: bac_eq path98_bac_def run_simps)

lemma path98_bac_3: "top1_label bac (search bac path98_bac 3) = Some ''aab''"
  by (simp add: bac_eq path98_bac_def run_simps)



lemma seq_memo: "seq (snd (convertToStr e v)) = seq e"
  by (cases "string_memo e") (simp_all add: convertToStr_def Let_def)

lemma merge_into_fields:
  "seq (merge_into e b) = seq e" "string_memo (merge_into e b) = string_memo e"
  by (simp_all add: merge_into_def)











subsection \<open>The indices that search extends\<close>

text \<open>
  The loop of \<open>search\<close> extends by the indices \<open>0\<close> to \<open>row.length - 2\<close>. These are the
  non-blank indices of the row when the blank is the last index.
\<close>

lemma extend_indices_blank_last:
  assumes "row \<noteq> []" "ctc_blankIndex this = int (length row) - 1"
  shows "set (map int [0 ..< length row - 1])
           = {i. 0 \<le> i \<and> i < int (length row) \<and> i \<noteq> ctc_blankIndex this}"
proof (rule set_eqI)
  fix i :: int
  have "i \<in> set (map int [0 ..< length row - 1]) \<longleftrightarrow> 0 \<le> i \<and> nat i < length row - 1"
    by (auto simp: image_iff intro: bexI[of _ "nat i"])
  also have "\<dots> \<longleftrightarrow> 0 \<le> i \<and> i < int (length row) \<and> i \<noteq> ctc_blankIndex this"
    using assms by (cases row) auto
  finally show "i \<in> set (map int [0 ..< length row - 1])
       \<longleftrightarrow> i \<in> {i. 0 \<le> i \<and> i < int (length row) \<and> i \<noteq> ctc_blankIndex this}"
    by simp
qed

text \<open>
  Whatever the blank index, no sequence ever holds the last index of the rows: with rows
  of \<open>n + 1\<close> numbers, every entry that a search returns has indices below \<open>n\<close> only.
\<close>

lemma indices_below_pool: "kept_by_pool (indices_below n) v"
  unfolding kept_by_pool_def indices_below_def by (simp add: merge_into_fields seq_memo)

lemma seq_copy: "copy e row blank = Some r \<Longrightarrow> seq r = seq e"
  by (auto simp: copy_def BeamEntry_new_def Let_def split: if_splits)

lemma seq_extend:
  "extend e index prob blank = Some r \<Longrightarrow> seq r = [] \<or> seq r = seq e @ [index]"
  by (auto simp: extend_def BeamEntry_new_def Let_def split: if_splits)

lemma indices_below_successors:
  assumes "length row - 1 \<le> n"
  shows "kept_by_successors (indices_below n) this row"
proof -
  have "indices_below n r"
    if e: "indices_below n e" and r: "Some r \<in> set (successors this row e)" for e r
  proof -
    let ?blank = "row_at row (ctc_blankIndex this)"
    from r consider "copy e row ?blank = Some r"
      | c where "c < length row - 1" "extend e (int c) (row_at row (int c)) ?blank = Some r"
      unfolding successors_def by auto
    then show ?thesis
    proof cases
      case 1
      then show ?thesis using e seq_copy[of e row ?blank r] by (simp add: indices_below_def)
    next
      case 2
      then have "seq r = [] \<or> seq r = seq e @ [int c]" using seq_extend by blast
      moreover have "int c < int n" using 2(1) assms by simp
      ultimately show ?thesis using e by (auto simp: indices_below_def)
    qed
  qed
  then show ?thesis unfolding kept_by_successors_def by blast
qed

lemma last_index_never_extended:
  assumes rows: "\<forall>row \<in> set m. length row - 1 \<le> n"
    and r: "search this m w = Inr bs" and e: "Some e \<in> set bs"
  shows "indices_below n e"
proof -
  have k: "\<forall>row \<in> set m. kept_by_successors (indices_below n) this row"
    using rows indices_below_successors by blast
  have i: "\<forall>e. Some e \<in> set [Some (BeamEntry_new [] None)] \<longrightarrow> indices_below n e"
    by (simp add: indices_below_def BeamEntry_new_def)
  show ?thesis
    using search_rows_preserves[OF indices_below_pool k i] r e unfolding search_def by blast
qed

text \<open>
  C6. At every time step every beam should get an \<open>extend\<close> successor for every
  non-blank index of the row (and one \<open>copy\<close> successor), wherever the blank index is.
  The code does not do so when the blank is not the last index. With \<open>a = 1, b = 2\<close>,
  the blank at index \<open>0\<close>, and a row that gives probability 0.98 to \<open>b\<close>, the loop
  runs over the indices \<open>0\<close> and \<open>1\<close>: the root gets no successor for index \<open>2\<close>, and
  one for the blank index \<open>0\<close>; the entry for \<open>a\<close> gets its copy and a successor with
  the blank appended to its sequence; the search on this row returns the empty string
  and \<open>a\<close>, and no \<open>b\<close>.
\<close>

theorem blank_first_successors:
  "map (map_option seq)
     (successors blank_first [ln (1 / 100), ln (1 / 100), ln (98 / 100)] (BeamEntry_new [] None))
     = [None, Some [], Some [1]] \<and>
   map (map_option seq)
     (successors blank_first [ln (1 / 100), ln (1 / 100), ln (98 / 100)]
        (BeamEntry [1] (Some (ln (1 / 100))) (Some 0) (Some (ln (1 / 100))) 1 (Some ''a'')
           (Some (BeamEntry [] (Some 0) (Some 0) (Some 0) (- 1) None None))))
     = [Some [1], Some [1, 0], None] \<and>
   search blank_first [[ln (1 / 100), ln (1 / 100), ln (98 / 100)]] 3 =
     Inr [Some (BeamEntry [] (Some (ln (1 / 50))) (Some 0) (Some 0) (- 1) (Some [])
                 (Some (BeamEntry [] (Some 0) (Some 0) (Some 0) (- 1) None None))),
          Some (BeamEntry [1] (Some (ln (1 / 100))) (Some 0) (Some (ln (1 / 100))) 1 (Some ''a'')
                 (Some (BeamEntry [] (Some 0) (Some 0) (Some 0) (- 1) None None))),
          None]"
  by (simp add: blank_first_eq run_simps)

end
